theory Spec2Isabelle
  imports Complex_Main "HOL-Library.Stream"
begin

section \<open>Arrays and Python primitives\<close>

text \<open>
  The simulators work on NumPy arrays of double-precision numbers. The development
  reads a two-dimensional array as a list of rows and a floating-point number as a
  real number: rounding is not modelled, the outcome of a division by zero is (see
  \<open>np_divide\<close> below). Python integers are \<open>int\<close>, array shapes are natural numbers.
\<close>

type_synonym array2 = "real list list"

definition zeros :: "nat \<Rightarrow> nat \<Rightarrow> array2" where
  "zeros rows cols = replicate rows (replicate cols 0)"

text \<open>
  An array written out cell by cell: row \<open>i\<close>, column \<open>j\<close>. NumPy's broadcast
  expressions over \<open>np.ogrid\<close> are tabulated with it.
\<close>

definition tabulate2 :: "nat \<Rightarrow> nat \<Rightarrow> (nat \<Rightarrow> nat \<Rightarrow> 'a) \<Rightarrow> 'a list list" where
  "tabulate2 rows cols f = map (\<lambda>i. map (\<lambda>j. f i j) [0..<cols]) [0..<rows]"

text \<open>Elementwise operations on arrays of one shape.\<close>

definition amap :: "('a \<Rightarrow> 'b) \<Rightarrow> 'a list list \<Rightarrow> 'b list list" where
  "amap f a = map (map f) a"

definition amap2 :: "('a \<Rightarrow> 'b \<Rightarrow> 'c) \<Rightarrow> 'a list list \<Rightarrow> 'b list list \<Rightarrow> 'c list list" where
  "amap2 f a b = map2 (map2 f) a b"

text \<open>\<open>a[mask] = v\<close> for a boolean mask of the shape of \<open>a\<close>.\<close>

definition assign_mask :: "bool list list \<Rightarrow> real \<Rightarrow> array2 \<Rightarrow> array2" where
  "assign_mask msk v a = amap2 (\<lambda>m c. if m then v else c) msk a"

text \<open>\<open>np.clip(a, lo, hi)\<close> is \<open>minimum(hi, maximum(a, lo))\<close>; \<open>np.sum(a)\<close> adds all cells.\<close>

definition np_clip :: "array2 \<Rightarrow> real \<Rightarrow> real \<Rightarrow> array2" where
  "np_clip a lo hi = amap (\<lambda>v. min hi (max v lo)) a"

definition np_sum :: "array2 \<Rightarrow> real" where
  "np_sum a = sum_list (map sum_list a)"

text \<open>
  \<open>np.linspace(start, stop, num)\<close>: \<open>num\<close> evenly spaced samples, both ends included
  (for \<open>num = 1\<close> the single sample \<open>start\<close>), and \<open>np.meshgrid(xs, ys)\<close>: the
  coordinate arrays \<open>X[i][j] = xs[j]\<close>, \<open>Y[i][j] = ys[i]\<close>.
\<close>

definition linspace :: "real \<Rightarrow> real \<Rightarrow> nat \<Rightarrow> real list" where
  "linspace start stop num =
     map (\<lambda>i. if num = 1 then start else start + real i * ((stop - start) / real (num - 1)))
       [0..<num]"

definition meshgrid :: "real list \<Rightarrow> real list \<Rightarrow> array2 \<times> array2" where
  "meshgrid xs ys = (map (\<lambda>y. xs) ys, map (\<lambda>y. map (\<lambda>x. y) xs) ys)"

text \<open>\<open>int(x)\<close> on a float truncates toward zero.\<close>

definition py_int :: "real \<Rightarrow> int" where
  "py_int x = (if 0 \<le> x then \<lfloor>x\<rfloor> else \<lceil>x\<rceil>)"

text \<open>
  A bound of a slice \<open>a[s:e]\<close> over an axis of length \<open>n\<close>: a negative bound counts
  from the end of the axis, and the result is clipped into \<open>0..n\<close>. A slice never raises.
\<close>

definition slice_bound :: "nat \<Rightarrow> int \<Rightarrow> nat" where
  "slice_bound n i = (if i < 0 then nat (max 0 (i + int n)) else min n (nat i))"

definition in_slice :: "nat \<Rightarrow> int \<Rightarrow> int \<Rightarrow> nat \<Rightarrow> bool" where
  "in_slice n s e i \<longleftrightarrow> slice_bound n s \<le> i \<and> i < slice_bound n e"

text \<open>\<open>a[y0:y1, x0:x1] = v\<close>\<close>

definition assign_slice :: "int \<Rightarrow> int \<Rightarrow> int \<Rightarrow> int \<Rightarrow> real \<Rightarrow> array2 \<Rightarrow> array2" where
  "assign_slice y0 y1 x0 x1 v a =
     map (\<lambda>(i, row).
            if in_slice (length a) y0 y1 i
            then map (\<lambda>(j, c). if in_slice (length row) x0 x1 j then v else c)
                   (enumerate 0 row)
            else row)
       (enumerate 0 a)"

section \<open>Pixel-index aperture builders (diffraction\_calculator.py)\<close>

definition create_circular_aperture :: "nat \<times> nat \<Rightarrow> real \<Rightarrow> real \<Rightarrow> real \<Rightarrow> array2" where
  "create_circular_aperture shape radius center_x center_y =
     (let (rows, cols) = shape;
          mask = tabulate2 rows cols
                   (\<lambda>y x. (real x - center_x)\<^sup>2 + (real y - center_y)\<^sup>2 \<le> radius\<^sup>2);
          aperture = zeros rows cols
      in assign_mask mask 1 aperture)"

definition create_square_aperture :: "nat \<times> nat \<Rightarrow> real \<Rightarrow> real \<Rightarrow> real \<Rightarrow> array2" where
  "create_square_aperture shape side_length center_x center_y =
     (let (rows, cols) = shape;
          aperture = zeros rows cols;
          half_side = side_length / 2;
          x_start = py_int (center_x - half_side);
          x_end = py_int (center_x + half_side);
          y_start = py_int (center_y - half_side);
          y_end = py_int (center_y + half_side);
          x_start = max 0 x_start;
          x_end = min (int cols) x_end;
          y_start = max 0 y_start;
          y_end = min (int rows) y_end
      in assign_slice y_start y_end x_start x_end 1 aperture)"

definition create_single_slit_aperture ::
  "nat \<times> nat \<Rightarrow> real \<Rightarrow> real \<Rightarrow> real \<Rightarrow> real \<Rightarrow> array2" where
  "create_single_slit_aperture shape slit_width slit_height center_x center_y =
     (let (rows, cols) = shape;
          aperture = zeros rows cols;
          half_width = slit_width / 2;
          half_height = slit_height / 2;
          x_start = py_int (center_x - half_width);
          x_end = py_int (center_x + half_width);
          y_start = py_int (center_y - half_height);
          y_end = py_int (center_y + half_height);
          x_start = max 0 x_start;
          x_end = min (int cols) x_end;
          y_start = max 0 y_start;
          y_end = min (int rows) y_end
      in assign_slice y_start y_end x_start x_end 1 aperture)"

definition create_double_slit_aperture ::
  "nat \<times> nat \<Rightarrow> real \<Rightarrow> real \<Rightarrow> real \<Rightarrow> real \<Rightarrow> real \<Rightarrow> array2" where
  "create_double_slit_aperture shape slit_width slit_height separation center_x center_y =
     (let (rows, cols) = shape;
          aperture = zeros rows cols;
          center_x1 = center_x - separation / 2;
          aperture = amap2 (+) aperture
            (create_single_slit_aperture shape slit_width slit_height center_x1 center_y);
          center_x2 = center_x + separation / 2;
          aperture = amap2 (+) aperture
            (create_single_slit_aperture shape slit_width slit_height center_x2 center_y)
      in np_clip aperture 0 1)"

section \<open>Coordinate-grid aperture builder (fraunhofer\_fft\_gui.py)\<close>

text \<open>
  \<open>scipy.ndimage.rotate(a, angle, reshape=False, order=1, mode='constant', cval=0.0)\<close> is
  library code. It is written here from the library's description: the output cell
  \<open>(i, j)\<close> is sampled in the input at the position obtained by turning \<open>(i, j)\<close> about
  the centre of the array by the matrix \<open>[[c, s], [-s, c]]\<close>, with linear interpolation
  between the four surrounding cells (spline order 1), and a position outside the input
  gives \<open>cval = 0\<close>.
\<close>

text \<open>
  A cell by row and column, with 0 outside the array; the interpolation between two
  values; the sample at a position \<open>(p, q)\<close>; the rotated array.
\<close>

definition at2 :: "array2 \<Rightarrow> int \<Rightarrow> int \<Rightarrow> real" where
  "at2 a i j =
     (if 0 \<le> i \<and> i < int (length a) \<and> 0 \<le> j \<and> j < int (length (a ! nat i))
      then a ! nat i ! nat j else 0)"

definition lerp :: "real \<Rightarrow> real \<Rightarrow> real \<Rightarrow> real" where
  "lerp t v w = (1 - t) * v + t * w"

definition interp_linear :: "array2 \<Rightarrow> real \<Rightarrow> real \<Rightarrow> real" where
  "interp_linear a p q =
     (let rows = length a; cols = (if rows = 0 then 0 else length (hd a))
      in if p < 0 \<or> real rows - 1 < p \<or> q < 0 \<or> real cols - 1 < q then 0
         else (let i = \<lfloor>p\<rfloor>; j = \<lfloor>q\<rfloor>; t = p - of_int i; s = q - of_int j
               in lerp t (lerp s (at2 a i j) (at2 a i (j + 1)))
                         (lerp s (at2 a (i + 1) j) (at2 a (i + 1) (j + 1)))))"

definition ndimage_rotate :: "array2 \<Rightarrow> real \<Rightarrow> array2" where
  "ndimage_rotate a angle =
     (let rows = length a; cols = (if rows = 0 then 0 else length (hd a));
          c = cos (angle * pi / 180); s = sin (angle * pi / 180);
          ci = (real rows - 1) / 2; cj = (real cols - 1) / 2
      in tabulate2 rows cols
           (\<lambda>i j. interp_linear a
                    (c * (real i - ci) + s * (real j - cj) + ci)
                    (- s * (real i - ci) + c * (real j - cj) + cj)))"

text \<open>
  The attributes of \<open>FraunhoferDiffractionFFTMatplotlib\<close> that \<open>create_aperture\<close> reads.
  \<open>X_input\<close> and \<open>Y_input\<close> are kept by the class as
  \<open>meshgrid(linspace(-L_input/2, L_input/2, N), linspace(-L_input/2, L_input/2, N))\<close>
  with \<open>L_input = N * pixel_size_input\<close>.
\<close>

record fft_gui =
  N :: nat
  pixel_size_input :: real
  aperture_type :: string
  width_param :: real
  height_param :: real
  radius_param :: real
  r_outer_param :: real
  r_inner_param :: real
  separation_param :: real
  rotation_angle :: real

definition L_input :: "'a fft_gui_scheme \<Rightarrow> real" where
  "L_input self = real (N self) * pixel_size_input self"

definition x_coords_input :: "'a fft_gui_scheme \<Rightarrow> real list" where
  "x_coords_input self = linspace (- L_input self / 2) (L_input self / 2) (N self)"

definition y_coords_input :: "'a fft_gui_scheme \<Rightarrow> real list" where
  "y_coords_input self = linspace (- L_input self / 2) (L_input self / 2) (N self)"

definition X_input :: "'a fft_gui_scheme \<Rightarrow> array2" where
  "X_input self = fst (meshgrid (x_coords_input self) (y_coords_input self))"

definition Y_input :: "'a fft_gui_scheme \<Rightarrow> array2" where
  "Y_input self = snd (meshgrid (x_coords_input self) (y_coords_input self))"

definition create_aperture :: "'a fft_gui_scheme \<Rightarrow> array2" where
  "create_aperture self =
     (let aperture = zeros (N self) (N self);
          current_width = width_param self;
          current_height = height_param self;
          current_radius = radius_param self;
          current_separation = separation_param self;
          current_r_outer = r_outer_param self;
          current_r_inner = r_inner_param self;
          aperture =
            (if aperture_type self = ''rectangular'' then
               (let mask_x = amap (\<lambda>x. \<bar>x\<bar> < current_width / 2) (X_input self);
                    mask_y = amap (\<lambda>y. \<bar>y\<bar> < current_height / 2) (Y_input self)
                in assign_mask (amap2 (\<and>) mask_x mask_y) 1 aperture)
             else if aperture_type self = ''circular'' then
               (let r = amap2 (\<lambda>x y. sqrt (x\<^sup>2 + y\<^sup>2)) (X_input self) (Y_input self)
                in assign_mask (amap (\<lambda>r. r \<le> current_radius) r) 1 aperture)
             else if aperture_type self = ''double_slit'' then
               (let mask_x1 = amap (\<lambda>x. \<bar>x + current_separation / 2\<bar> < current_width / 2)
                                (X_input self);
                    mask_y1 = amap (\<lambda>y. \<bar>y\<bar> < current_height / 2) (Y_input self);
                    aperture = assign_mask (amap2 (\<and>) mask_x1 mask_y1) 1 aperture;
                    mask_x2 = amap (\<lambda>x. \<bar>x - current_separation / 2\<bar> < current_width / 2)
                                (X_input self);
                    mask_y2 = amap (\<lambda>y. \<bar>y\<bar> < current_height / 2) (Y_input self)
                in assign_mask (amap2 (\<and>) mask_x2 mask_y2) 1 aperture)
             else if aperture_type self = ''cross'' then
               (let mask_h_x = amap (\<lambda>x. \<bar>x\<bar> < current_width / 2) (X_input self);
                    mask_h_y = amap (\<lambda>y. \<bar>y\<bar> < current_height / 10) (Y_input self);
                    aperture = assign_mask (amap2 (\<and>) mask_h_x mask_h_y) 1 aperture;
                    mask_v_x = amap (\<lambda>x. \<bar>x\<bar> < current_width / 10) (X_input self);
                    mask_v_y = amap (\<lambda>y. \<bar>y\<bar> < current_height / 2) (Y_input self)
                in assign_mask (amap2 (\<and>) mask_v_x mask_v_y) 1 aperture)
             else if aperture_type self = ''triangle'' then
               (let y = Y_input self; x = X_input self;
                    H = current_height; B = current_width;
                    mask_y_base = amap (\<lambda>y. - H / 2 \<le> y) y;
                    mask_y_top = amap (\<lambda>y. y \<le> H / 2) y;
                    x_boundary_at_y = amap (\<lambda>y. (B / 2) * (1 - (y + H / 2) / H)) y;
                    mask_x_sides = amap2 (\<lambda>x b. \<bar>x\<bar> \<le> b) x x_boundary_at_y
                in assign_mask
                     (amap2 (\<and>) (amap2 (\<and>) mask_y_base mask_y_top) mask_x_sides) 1 aperture)
             else if aperture_type self = ''annular'' then
               (let r = amap2 (\<lambda>x y. sqrt (x\<^sup>2 + y\<^sup>2)) (X_input self) (Y_input self)
                in assign_mask
                     (amap (\<lambda>r. r \<le> current_r_outer \<and> current_r_inner \<le> r) r) 1 aperture)
             else if aperture_type self = ''custom'' then
               (let mask_bar1_x = amap (\<lambda>x. - current_width / 2 < x
                                        \<and> x < - current_width / 2 + current_width / 5) (X_input self);
                    mask_bar1_y = amap (\<lambda>y. - current_height / 2 < y \<and> y < current_height / 2)
                                    (Y_input self);
                    aperture = assign_mask (amap2 (\<and>) mask_bar1_x mask_bar1_y) 1 aperture;
                    mask_bar2_x = amap (\<lambda>x. - current_width / 2 < x \<and> x < current_width / 2)
                                    (X_input self);
                    mask_bar2_y = amap (\<lambda>y. - current_height / 2 < y
                                        \<and> y < - current_height / 2 + current_height / 5) (Y_input self)
                in assign_mask (amap2 (\<and>) mask_bar2_x mask_bar2_y) 1 aperture)
             else aperture)
      in if rotation_angle self \<noteq> 0 then ndimage_rotate aperture (rotation_angle self)
         else aperture)"




section \<open>Far-field intensity by the discrete Fourier transform\<close>

text \<open>
  \<open>scipy.fft.fft2\<close> and \<open>fftshift\<close> are library code, written here from their
  definitions: the two-dimensional discrete Fourier transform
  \<open>F[k][l] = \<Sum>m n. a[m][n] * exp (- 2 \<pi> i (k m / M + l n / N))\<close> of an \<open>M \<times> N\<close> array, and
  the cyclic shift of every axis by half its length, which moves \<open>F[0][0]\<close> to the centre.
\<close>

definition fft2 :: "array2 \<Rightarrow> complex list list" where
  "fft2 a =
     (let M = length a; N' = (if M = 0 then 0 else length (hd a))
      in tabulate2 M N'
           (\<lambda>k l. \<Sum>m<M. \<Sum>n<N'. complex_of_real (a ! m ! n) *
                    cis (- 2 * pi * (real k * real m / real M + real l * real n / real N'))))"

definition roll_half :: "'a list \<Rightarrow> 'a list" where
  "roll_half xs = (let n = length xs; k = n div 2 in drop (n - k) xs @ take (n - k) xs)"

definition fftshift :: "'a list list \<Rightarrow> 'a list list" where
  "fftshift a = roll_half (map roll_half a)"

text \<open>
  The outcome of a floating-point division, the one operation of the transform path
  that can leave the finite numbers: NumPy returns \<open>nan\<close> for \<open>0 / 0\<close> and an infinity
  for any other division by zero, with a warning and no exception.
\<close>

datatype npfloat = Fin real | PosInf | NegInf | NaN

definition np_divide :: "real \<Rightarrow> real \<Rightarrow> npfloat" where
  "np_divide x y =
     (if y \<noteq> 0 then Fin (x / y) else if x = 0 then NaN else if 0 < x then PosInf else NegInf)"

text \<open>\<open>np.max\<close> of an array with no cell raises \<open>ValueError\<close>.\<close>

datatype py_error = ValueError

definition np_max :: "array2 \<Rightarrow> py_error + real" where
  "np_max a = (if concat a = [] then Inl ValueError else Inr (Max (set (concat a))))"

text \<open>\<open>FraunhoferDiffractionFFTMatplotlib.calculate_diffraction_pattern\<close> (fraunhofer\_fft\_gui.py)\<close>

definition calculate_diffraction_pattern :: "array2 \<Rightarrow> py_error + npfloat list list" where
  "calculate_diffraction_pattern aperture =
     (let fft_aperture = fft2 aperture;
          fft_aperture_shifted = fftshift fft_aperture;
          intensity = amap (\<lambda>c. (cmod c)\<^sup>2) fft_aperture_shifted
      in case np_max intensity of
           Inl e \<Rightarrow> Inl e
         | Inr max_intensity \<Rightarrow>
             if 0 < max_intensity
             then Inr (amap (\<lambda>v. np_divide v max_intensity) intensity)
             else Inr (amap Fin intensity))"

text \<open>\<open>DiffractionSimulator.calculate_diffraction_pattern\<close> (Punto\_2.py)\<close>

definition simulator_calculate_diffraction_pattern ::
  "array2 \<Rightarrow> py_error + npfloat list list" where
  "simulator_calculate_diffraction_pattern aperture =
     (let fft_result = fft2 aperture;
          fft_shifted = fftshift fft_result;
          intensity = amap (\<lambda>c. (cmod c)\<^sup>2) fft_shifted
      in case np_max intensity of
           Inl e \<Rightarrow> Inl e
         | Inr m \<Rightarrow> Inr (amap (\<lambda>v. np_divide v m) intensity))"

section \<open>The disorder aperture (Punto\_2.py)\<close>

text \<open>
  The process-wide random source is made explicit: a stream of the numbers in the unit
  interval that the generator will hand out. \<open>np.random.uniform(low, high)\<close> takes the
  next one and scales it; the rest of the stream is the generator's new state.
\<close>

type_synonym rng = "real stream"

definition uniform :: "real \<Rightarrow> real \<Rightarrow> rng \<Rightarrow> real \<times> rng" where
  "uniform low high g = (low + (high - low) * shd g, stl g)"

record simulator =
  matrix_size :: nat
  pixel_size :: real
  disorder_circle_diameter :: real
  disorder_spacing :: real
  disorder_amount :: real

definition positions :: "(int \<times> int) list" where
  "positions = [(-1, -1), (-1, 0), (-1, 1), (0, -1), (0, 0), (0, 1), (1, -1), (1, 0), (1, 1)]"

text \<open>One turn of the loop over \<open>positions\<close>, on the aperture and the generator.\<close>

definition disorder_step ::
  "simulator \<Rightarrow> int \<times> int \<Rightarrow> array2 \<times> rng \<Rightarrow> array2 \<times> rng" where
  "disorder_step self ij st =
     (let (i, j) = ij; (aperture, g) = st;
          center = matrix_size self div 2;
          spacing_pixels = disorder_spacing self / pixel_size self;
          circle_radius = disorder_circle_diameter self / (2 * pixel_size self);
          x_pos = real center + of_int i * spacing_pixels;
          y_pos = real center + of_int j * spacing_pixels;
          (x_pos, y_pos, g) =
            (if 0 < disorder_amount self then
               (let disorder_range = (disorder_amount self / 4) * spacing_pixels * (3 / 10);
                    (dx, g) = uniform (- disorder_range) disorder_range g;
                    (dy, g) = uniform (- disorder_range) disorder_range g
                in (x_pos + dx, y_pos + dy, g))
             else (x_pos, y_pos, g));
          circle_mask = tabulate2 (matrix_size self) (matrix_size self)
                          (\<lambda>y x. (real x - x_pos)\<^sup>2 + (real y - y_pos)\<^sup>2 \<le> circle_radius\<^sup>2)
      in (assign_mask circle_mask 1 aperture, g))"

definition create_disorder_aperture :: "simulator \<Rightarrow> rng \<Rightarrow> array2 \<times> rng" where
  "create_disorder_aperture self g =
     fold (disorder_step self) positions (zeros (matrix_size self) (matrix_size self), g)"

section \<open>The analytic Fraunhofer model (Punto\_1.py)\<close>

text \<open>
  \<open>scipy.special.j1\<close>, the Bessel function of the first kind of order one, is library
  code; it is given here by its power series.
\<close>

definition j1 :: "real \<Rightarrow> real" where
  "j1 x = (\<Sum>m. (- 1) ^ m / (fact m * fact (Suc m)) * (x / 2) ^ (2 * m + 1))"

text \<open>\<open>np.where(c, v, w)\<close> computes both \<open>v\<close> and \<open>w\<close> and selects by \<open>c\<close>.\<close>

definition sinc :: "real \<Rightarrow> real" where
  "sinc x = (if \<bar>x\<bar> < 1 / 10 ^ 10 then 1 else sin x / x)"

definition bessel_j1_normalized :: "real \<Rightarrow> real" where
  "bessel_j1_normalized x = (if \<bar>x\<bar> < 1 / 10 ^ 10 then 1 / 2 else j1 x / x)"

text \<open>The dictionary \<open>self.params\<close>, one field \<open>p_key\<close> for every key.\<close>

record params =
  p_lambda :: real
  p_D :: real
  p_a :: real
  p_b :: real
  p_R1 :: real
  p_R2 :: real
  p_z :: real
  p_n :: real
  p_I_source :: real
  p_range :: real
  p_aperture_range :: real

text \<open>\<open>calculate_intensity\<close> at one point of the coordinate arrays.\<close>

definition calculate_intensity :: "params \<Rightarrow> real \<Rightarrow> real \<Rightarrow> real" where
  "calculate_intensity self x y =
     (let lambda_val = p_lambda self; D = p_D self; a = p_a self; b = p_b self;
          R1 = p_R1 self; R2 = p_R2 self; z = p_z self; n = p_n self;
          I_source = p_I_source self;
          k = 2 * pi / lambda_val;
          r = sqrt (x\<^sup>2 + y\<^sup>2);
          beta_x = k * a * x / z;
          beta_y = k * b * y / z;
          sinc_x = sinc (beta_x / 2);
          sinc_y = sinc (beta_y / 2);
          kr = k * r;
          kr_safe = (if 1 / 10 ^ 10 < r then kr else 1 / 10 ^ 10);
          bessel_R1 = (if 0 < R1 then R1\<^sup>2 * bessel_j1_normalized (kr_safe * R1 / z) else 0);
          bessel_R2 = (if 0 < R2 then R2\<^sup>2 * bessel_j1_normalized (kr_safe * R2 / z) else 0);
          term1 = (b\<^sup>2 * a\<^sup>2) * sinc_x\<^sup>2 * sinc_y\<^sup>2;
          term2 = (4 * pi)\<^sup>2 * (bessel_R2 - bessel_R1)\<^sup>2;
          phase = k * D * y / z;
          rect_field_term = (b * a) * sinc_x * sinc_y;
          ring_field_term = (4 * pi) * (bessel_R2 - bessel_R1);
          term3 = 2 * rect_field_term * ring_field_term * cos phase;
          intensity = I_source * (n\<^sup>2 / (lambda_val\<^sup>2 * z\<^sup>2)) * (term1 + term2 + term3)
      in max 0 intensity)"

text \<open>The same on coordinate arrays \<open>x\<close> and \<open>y\<close> of one shape, cell by cell.\<close>

definition calculate_intensity_array :: "params \<Rightarrow> array2 \<Rightarrow> array2 \<Rightarrow> array2" where
  "calculate_intensity_array self x y = amap2 (calculate_intensity self) x y"



section \<open>The Fresnel intensity model (Punto\_3\_Fresnel.py)\<close>

text \<open>
  \<open>scipy.special.fresnel\<close> is library code: it returns the Fresnel integrals
  \<open>S x = \<integral> sin (\<pi> t\<^sup>2 / 2)\<close> and \<open>C x = \<integral> cos (\<pi> t\<^sup>2 / 2)\<close> from \<open>0\<close> to \<open>x\<close>, given here by
  their power series. \<open>np.sinc\<close> is the normalized \<open>sin (\<pi> x) / (\<pi> x)\<close>, with value \<open>1\<close>
  at \<open>0\<close>.
\<close>

definition fresnel_S :: "real \<Rightarrow> real" where
  "fresnel_S x =
     (\<Sum>k. (- 1) ^ k * (pi / 2) ^ (2 * k + 1) * x ^ (4 * k + 3)
            / (fact (2 * k + 1) * real (4 * k + 3)))"

definition fresnel_C :: "real \<Rightarrow> real" where
  "fresnel_C x =
     (\<Sum>k. (- 1) ^ k * (pi / 2) ^ (2 * k) * x ^ (4 * k + 1)
            / (fact (2 * k) * real (4 * k + 1)))"

definition fresnel :: "real \<Rightarrow> real \<times> real" where
  "fresnel x = (fresnel_S x, fresnel_C x)"

definition np_sinc :: "real \<Rightarrow> real" where
  "np_sinc x = (if x = 0 then 1 else sin (pi * x) / (pi * x))"

text \<open>\<open>calcular_patron_fresnel\<close> at one coordinate \<open>u\<close>, and on an array of them.\<close>

definition calcular_patron_fresnel :: "real \<Rightarrow> real \<Rightarrow> real" where
  "calcular_patron_fresnel u N' =
     (if N' < 1 / 10 ^ 6 then (np_sinc u)\<^sup>2
      else
        (let sqrt_N_2 = sqrt (N' / 2);
             sqrt_2_N = sqrt (2 / N');
             arg1 = sqrt_N_2 - u * sqrt_2_N;
             arg2 = - sqrt_N_2 - u * sqrt_2_N;
             (S1, C1) = fresnel arg1;
             (S2, C2) = fresnel arg2;
             intensidad = (C1 - C2)\<^sup>2 + (S1 - S2)\<^sup>2;
             (S0_pos, C0_pos) = fresnel sqrt_N_2;
             (S0_neg, C0_neg) = fresnel (- sqrt_N_2);
             intensidad_central = (C0_pos - C0_neg)\<^sup>2 + (S0_pos - S0_neg)\<^sup>2
         in if intensidad_central < 1 / 10 ^ 12 then intensidad
            else intensidad / intensidad_central))"

definition calcular_patron_fresnel_array :: "real list \<Rightarrow> real \<Rightarrow> real list" where
  "calcular_patron_fresnel_array u N' = map (\<lambda>ui. calcular_patron_fresnel ui N') u"

section \<open>Vocabulary of the properties\<close>

text \<open>
  A predicate on every cell, the shape of an array, the closed interval from 0 to 1,
  the coordinate of the \<open>k\<close>-th sample of the input plane's grid, and the relation between
  two masks of one shape that every cell set to 1 in the first is set to 1 in the second.
\<close>

definition all_cells :: "('a \<Rightarrow> bool) \<Rightarrow> 'a list list \<Rightarrow> bool" where
  "all_cells P a = list_all (list_all P) a"

definition has_shape :: "'a list list \<Rightarrow> nat \<Rightarrow> nat \<Rightarrow> bool" where
  "has_shape a rows cols = (length a = rows \<and> list_all (\<lambda>r. length r = cols) a)"

definition unit_interval :: "real \<Rightarrow> bool" where
  "unit_interval v \<longleftrightarrow> 0 \<le> v \<and> v \<le> 1"

definition coord :: "'a fft_gui_scheme \<Rightarrow> nat \<Rightarrow> real" where
  "coord self k = linspace (- L_input self / 2) (L_input self / 2) (N self) ! k"

definition cells_kept :: "array2 \<Rightarrow> array2 \<Rightarrow> bool" where
  "cells_kept a1 a2 = list_all2 (list_all2 (\<lambda>v w. v = 1 \<longrightarrow> w = 1)) a1 a2"






text \<open>
  The periodic lattice: the cells within the circle radius of one of the nine lattice
  points. The simulator as \<open>__init__\<close> leaves it, a small simulator with a positive
  disorder amount whose lattice points other than the central one lie far outside its
  2 by 2 grid, and a random source that hands out \<open>1/2, 1/4, 1/8, \<dots>\<close>.
\<close>

definition lattice_mask :: "simulator \<Rightarrow> array2" where
  "lattice_mask self =
     tabulate2 (matrix_size self) (matrix_size self)
       (\<lambda>y x. if \<exists>(i, j) \<in> set positions.
                    (real x - (real (matrix_size self div 2)
                        + of_int i * (disorder_spacing self / pixel_size self)))\<^sup>2
                  + (real y - (real (matrix_size self div 2)
                        + of_int j * (disorder_spacing self / pixel_size self)))\<^sup>2
                  \<le> (disorder_circle_diameter self / (2 * pixel_size self))\<^sup>2
               then 1 else 0)"

definition default_simulator :: simulator where
  "default_simulator = \<lparr>matrix_size = 256, pixel_size = 2 / 10 ^ 5,
     disorder_circle_diameter = 1 / 10 ^ 4, disorder_spacing = 5 / 10 ^ 4,
     disorder_amount = 0\<rparr>"

definition small_simulator :: simulator where
  "small_simulator = \<lparr>matrix_size = 2, pixel_size = 1, disorder_circle_diameter = 1,
     disorder_spacing = 10, disorder_amount = 4\<rparr>"

definition halving_source :: rng where
  "halving_source = siterate (\<lambda>x. x / 2) (1 / 2)"

text \<open>A finite number between 0 and 1, as a cell of a normalized intensity field.\<close>

definition finite_in_unit :: "npfloat \<Rightarrow> bool" where
  "finite_in_unit v = (case v of Fin x \<Rightarrow> 0 \<le> x \<and> x \<le> 1 | _ \<Rightarrow> False)"

text \<open>
  The field amplitudes of the two sub-apertures, as \<open>calculate_intensity\<close> computes
  them: \<open>rect_field_term\<close> for the rectangle and \<open>ring_field_term\<close> for the annulus.
\<close>

definition rect_field_amplitude :: "params \<Rightarrow> real \<Rightarrow> real \<Rightarrow> real" where
  "rect_field_amplitude self x y =
     (let k = 2 * pi / p_lambda self
      in (p_b self * p_a self) * sinc (k * p_a self * x / p_z self / 2)
           * sinc (k * p_b self * y / p_z self / 2))"

definition ring_field_amplitude :: "params \<Rightarrow> real \<Rightarrow> real \<Rightarrow> real" where
  "ring_field_amplitude self x y =
     (let k = 2 * pi / p_lambda self;
          r = sqrt (x\<^sup>2 + y\<^sup>2);
          kr_safe = (if 1 / 10 ^ 10 < r then k * r else 1 / 10 ^ 10);
          bessel_R1 = (if 0 < p_R1 self
                       then (p_R1 self)\<^sup>2 * bessel_j1_normalized (kr_safe * p_R1 self / p_z self)
                       else 0);
          bessel_R2 = (if 0 < p_R2 self
                       then (p_R2 self)\<^sup>2 * bessel_j1_normalized (kr_safe * p_R2 self / p_z self)
                       else 0)
      in (4 * pi) * (bessel_R2 - bessel_R1))"

text \<open>
  The normalizing denominator of the Fresnel intensity, as \<open>calcular_patron_fresnel\<close>
  computes it. The Fresnel intensity in the words of the specification, with the two
  arguments \<open>\<plusminus> sqrt (N / 2) \<minusplus> u sqrt (2 / N)\<close> read sign by sign, and with the second
  argument as amended, \<open>- sqrt (N / 2) - u sqrt (2 / N)\<close>.
\<close>

definition intensidad_central :: "real \<Rightarrow> real" where
  "intensidad_central N' =
     (fresnel_C (sqrt (N' / 2)) - fresnel_C (- sqrt (N' / 2)))\<^sup>2
       + (fresnel_S (sqrt (N' / 2)) - fresnel_S (- sqrt (N' / 2)))\<^sup>2"

definition fresnel_intensity_as_stated :: "real \<Rightarrow> real \<Rightarrow> real" where
  "fresnel_intensity_as_stated u N' =
     (if N' < 1 / 10 ^ 6 then (np_sinc u)\<^sup>2
      else
        (let arg1 = sqrt (N' / 2) - u * sqrt (2 / N');
             arg2 = - sqrt (N' / 2) + u * sqrt (2 / N');
             numerator = (fresnel_C arg1 - fresnel_C arg2)\<^sup>2
                           + (fresnel_S arg1 - fresnel_S arg2)\<^sup>2
         in if intensidad_central N' < 1 / 10 ^ 12 then numerator
            else numerator / intensidad_central N'))"

definition fresnel_intensity_amended :: "real \<Rightarrow> real \<Rightarrow> real" where
  "fresnel_intensity_amended u N' =
     (if N' < 1 / 10 ^ 6 then (np_sinc u)\<^sup>2
      else
        (let arg1 = sqrt (N' / 2) - u * sqrt (2 / N');
             arg2 = - sqrt (N' / 2) - u * sqrt (2 / N');
             numerator = (fresnel_C arg1 - fresnel_C arg2)\<^sup>2
                           + (fresnel_S arg1 - fresnel_S arg2)\<^sup>2
         in if intensidad_central N' < 1 / 10 ^ 12 then numerator
            else numerator / intensidad_central N'))"

section \<open>Arrays cell by cell\<close>

lemma map2_map_same: "map2 f (map g xs) (map h xs) = map (\<lambda>x. f (g x) (h x)) xs"
  by (induction xs) auto

lemma zeros_tab: "zeros r c = tabulate2 r c (\<lambda>i j. 0)"
  by (simp add: zeros_def tabulate2_def map_replicate_trivial)

lemma amap_tab: "amap f (tabulate2 r c g) = tabulate2 r c (\<lambda>i j. f (g i j))"
  by (simp add: amap_def tabulate2_def o_def)

lemma amap2_tab:
  "amap2 f (tabulate2 r c g) (tabulate2 r c h) = tabulate2 r c (\<lambda>i j. f (g i j) (h i j))"
  by (simp add: amap2_def tabulate2_def map2_map_same)

lemma assign_mask_tab:
  "assign_mask (tabulate2 r c m) v (tabulate2 r c g) =
     tabulate2 r c (\<lambda>i j. if m i j then v else g i j)"
  by (simp add: assign_mask_def amap2_tab)

lemma nth_tab: "i < r \<Longrightarrow> j < c \<Longrightarrow> tabulate2 r c f ! i ! j = f i j"
  by (simp add: tabulate2_def)

lemma tab_cong: "(\<And>i j. i < r \<Longrightarrow> j < c \<Longrightarrow> f i j = g i j) \<Longrightarrow> tabulate2 r c f = tabulate2 r c g"
  by (simp add: tabulate2_def)

lemma has_shape_tab: "has_shape (tabulate2 r c f) r c"
  by (simp add: has_shape_def tabulate2_def list_all_iff)

lemma all_cells_tab: "all_cells P (tabulate2 r c f) \<longleftrightarrow> (\<forall>i<r. \<forall>j<c. P (f i j))"
  by (auto simp add: all_cells_def tabulate2_def list_all_iff)

lemma enumerate_map_upt: "enumerate 0 (map f [0..<k]) = map (\<lambda>i. (i, f i)) [0..<k]"
  by (simp add: enumerate_eq_zip zip_map2 zip_same_conv_map)
   
lemma assign_slice_tab:
  "assign_slice y0 y1 x0 x1 v (tabulate2 r c f) =
     tabulate2 r c (\<lambda>i j. if in_slice r y0 y1 i \<and> in_slice c x0 x1 j then v else f i j)"
  by (simp add: assign_slice_def tabulate2_def enumerate_map_upt o_def)

lemma np_sum_tab: "np_sum (tabulate2 r c f) = (\<Sum>i\<leftarrow>[0..<r]. \<Sum>j\<leftarrow>[0..<c]. f i j)"
  by (simp add: np_sum_def tabulate2_def o_def)

lemma all_cells_nth: "all_cells P a \<Longrightarrow> i < length a \<Longrightarrow> j < length (a ! i) \<Longrightarrow> P (a ! i ! j)"
  by (simp add: all_cells_def list_all_length)

lemma all_cells_assign_mask: "all_cells P a \<Longrightarrow> P v \<Longrightarrow> all_cells P (assign_mask m v a)"
  by (auto simp add: all_cells_def assign_mask_def amap2_def list_all_iff dest!: set_zip_rightD)

lemma unit_at2: "all_cells unit_interval a \<Longrightarrow> unit_interval (at2 a i j)"
  using all_cells_nth [of unit_interval a "nat i" "nat j"]
  by (auto simp add: at2_def unit_interval_def)

lemma unit_lerp:
  assumes "0 \<le> t" "t \<le> 1" "unit_interval v" "unit_interval w"
  shows "unit_interval (lerp t v w)"
proof -
  have "0 \<le> (1 - t) * v" "0 \<le> t * w"
    using assms by (simp_all add: unit_interval_def)
  moreover have "(1 - t) * v \<le> (1 - t) * 1" "t * w \<le> t * 1"
    using assms by (intro mult_left_mono; simp add: unit_interval_def)+
  ultimately show ?thesis
    by (simp add: lerp_def unit_interval_def)
qed

lemma unit_interp_linear:
  assumes "all_cells unit_interval a"
  shows "unit_interval (interp_linear a p q)"
proof -
  have t: "0 \<le> x - of_int \<lfloor>x\<rfloor>" "x - of_int \<lfloor>x\<rfloor> \<le> 1" for x :: real
    by linarith+
  have "unit_interval 0"
    by (simp add: unit_interval_def)
  then show ?thesis
    by (simp add: interp_linear_def Let_def unit_lerp t unit_at2 assms)
qed

lemma ndimage_rotate_shape:
  "has_shape a r c \<Longrightarrow> has_shape (ndimage_rotate a angle) r c"
  by (cases a) (auto simp add: ndimage_rotate_def Let_def has_shape_def tabulate2_def list_all_iff)

lemma ndimage_rotate_unit:
  "all_cells unit_interval a \<Longrightarrow> all_cells unit_interval (ndimage_rotate a angle)"
  by (simp add: ndimage_rotate_def Let_def all_cells_tab unit_interp_linear)

lemma linspace_map: "linspace s e k = map (\<lambda>i. linspace s e k ! i) [0..<k]"
  by (simp add: linspace_def list_eq_iff_nth_eq)

lemma meshgrid_tab:
  "meshgrid (map f [0..<c]) (map g [0..<r]) = (tabulate2 r c (\<lambda>i j. f j), tabulate2 r c (\<lambda>i j. g i))"
  by (simp add: meshgrid_def tabulate2_def o_def)

lemma X_input_tab: "X_input self = tabulate2 (N self) (N self) (\<lambda>i j. coord self j)"
  unfolding X_input_def x_coords_input_def y_coords_input_def
  by (subst (1 2) linspace_map) (simp add: meshgrid_tab coord_def [abs_def])

lemma Y_input_tab: "Y_input self = tabulate2 (N self) (N self) (\<lambda>i j. coord self i)"
  unfolding Y_input_def x_coords_input_def y_coords_input_def
  by (subst (1 2) linspace_map) (simp add: meshgrid_tab coord_def [abs_def])

lemmas tab_simps = zeros_tab amap_tab amap2_tab assign_mask_tab X_input_tab Y_input_tab

lemma create_aperture_shape: "has_shape (create_aperture self) (N self) (N self)"
  by (simp add: create_aperture_def Let_def tab_simps has_shape_tab ndimage_rotate_shape)

lemma create_aperture_unit: "all_cells unit_interval (create_aperture self)"
  by (simp add: create_aperture_def Let_def tab_simps ndimage_rotate_unit all_cells_tab
      unit_interval_def)

lemma create_single_slit_aperture_tab:
  "\<exists>f. create_single_slit_aperture (rows, cols) w h cx cy = tabulate2 rows cols f
     \<and> (\<forall>i j. f i j = 0 \<or> f i j = 1)"
  by (simp add: create_single_slit_aperture_def Let_def zeros_tab assign_slice_tab)
    (rule exI, rule conjI, rule refl, simp)

lemma create_double_slit_aperture_shape:
  "has_shape (create_double_slit_aperture (rows, cols) w h sep cx cy) rows cols"
proof -
  obtain f g where
    "create_single_slit_aperture (rows, cols) w h (cx - sep / 2) cy = tabulate2 rows cols f"
    "create_single_slit_aperture (rows, cols) w h (cx + sep / 2) cy = tabulate2 rows cols g"
    using create_single_slit_aperture_tab by metis
  then show ?thesis
    by (simp add: create_double_slit_aperture_def Let_def np_clip_def tab_simps has_shape_tab)
qed

lemma create_double_slit_aperture_unit:
  "all_cells unit_interval (create_double_slit_aperture shape w h sep cx cy)"
  by (cases shape)
    (simp add: create_double_slit_aperture_def Let_def np_clip_def amap_def all_cells_def
      list_all_iff unit_interval_def)

lemma list_all2_tab:
  "list_all2 (list_all2 R) (tabulate2 r c f) (tabulate2 r c g) \<longleftrightarrow> (\<forall>i<r. \<forall>j<c. R (f i j) (g i j))"
  by (auto simp add: tabulate2_def list_all2_conv_all_nth)

lemma np_sum_tab_mono:
  assumes "\<And>i j. i < r \<Longrightarrow> j < c \<Longrightarrow> f i j \<le> g i j"
  shows "np_sum (tabulate2 r c f) \<le> np_sum (tabulate2 r c g)"
  unfolding np_sum_tab using assms by (intro sum_list_mono) simp_all

lemma create_circular_aperture_tab:
  "create_circular_aperture (rows, cols) radius cx cy =
     tabulate2 rows cols (\<lambda>i j. if (real j - cx)\<^sup>2 + (real i - cy)\<^sup>2 \<le> radius\<^sup>2 then 1 else 0)"
  by (simp add: create_circular_aperture_def Let_def tab_simps)

lemma at2_tab:
  "at2 (tabulate2 r c f) i j =
     (if 0 \<le> i \<and> i < int r \<and> 0 \<le> j \<and> j < int c then f (nat i) (nat j) else 0)"
  by (auto simp add: at2_def tabulate2_def)

lemma shape_of_tab:
  "length (tabulate2 r c f) = r" "(if r = 0 then 0 else length (hd (tabulate2 r c f))) = (if r = 0 then 0 else c)"
  by (auto simp add: tabulate2_def hd_map upt_conv_Cons)

lemma lerp_mono:
  assumes "0 \<le> t" "t \<le> 1" "v \<le> v'" "w \<le> w'"
  shows "lerp t v w \<le> lerp t v' w'"
proof -
  have "(1 - t) * v \<le> (1 - t) * v'" "t * w \<le> t * w'"
    using assms by (intro mult_left_mono; simp)+
  then show ?thesis
    by (simp add: lerp_def)
qed

lemma interp_linear_tab_mono:
  assumes "\<And>i j. i < r \<Longrightarrow> j < c \<Longrightarrow> f i j \<le> g i j"
  shows "interp_linear (tabulate2 r c f) p q \<le> interp_linear (tabulate2 r c g) p q"
proof -
  have t: "0 \<le> x - of_int \<lfloor>x\<rfloor>" "x - of_int \<lfloor>x\<rfloor> \<le> 1" for x :: real
    by linarith+
  have at: "at2 (tabulate2 r c f) i j \<le> at2 (tabulate2 r c g) i j" for i j
    using assms [of "nat i" "nat j"] by (auto simp add: at2_tab)
  show ?thesis
    by (simp add: interp_linear_def Let_def shape_of_tab lerp_mono t at)
qed

lemma ndimage_rotate_tab:
  "ndimage_rotate (tabulate2 r c f) angle =
     tabulate2 r c (\<lambda>i j. interp_linear (tabulate2 r c f)
        (cos (angle * pi / 180) * (real i - (real r - 1) / 2)
           + sin (angle * pi / 180) * (real j - (real (if r = 0 then 0 else c) - 1) / 2) + (real r - 1) / 2)
        (- sin (angle * pi / 180) * (real i - (real r - 1) / 2)
           + cos (angle * pi / 180) * (real j - (real (if r = 0 then 0 else c) - 1) / 2)
           + (real (if r = 0 then 0 else c) - 1) / 2))"
  by (simp add: ndimage_rotate_def Let_def shape_of_tab) (simp add: tabulate2_def)

lemma create_aperture_circular_tab:
  assumes "aperture_type self = ''circular''"
  shows "create_aperture self =
    (let disc = tabulate2 (N self) (N self)
        (\<lambda>i j. if sqrt ((coord self j)\<^sup>2 + (coord self i)\<^sup>2) \<le> radius_param self then 1 else 0)
     in if rotation_angle self \<noteq> 0 then ndimage_rotate disc (rotation_angle self) else disc)"
  using assms by (simp add: create_aperture_def Let_def tab_simps)

lemma circular_pixel_mono:
  assumes "0 \<le> r1" "r1 \<le> r2"
  shows "cells_kept (create_circular_aperture shape r1 cx cy) (create_circular_aperture shape r2 cx cy)"
    and "np_sum (create_circular_aperture shape r1 cx cy) \<le> np_sum (create_circular_aperture shape r2 cx cy)"
proof -
  obtain rows cols where shape: "shape = (rows, cols)"
    by (cases shape)
  have sq: "r1\<^sup>2 \<le> r2\<^sup>2"
    using assms by (simp add: power_mono)
  have le: "d \<le> r1\<^sup>2 \<Longrightarrow> d \<le> r2\<^sup>2" for d
    using sq by simp
  show "cells_kept (create_circular_aperture shape r1 cx cy) (create_circular_aperture shape r2 cx cy)"
    by (simp add: shape cells_kept_def create_circular_aperture_tab list_all2_tab le)
  show "np_sum (create_circular_aperture shape r1 cx cy) \<le> np_sum (create_circular_aperture shape r2 cx cy)"
    unfolding shape create_circular_aperture_tab
    by (rule np_sum_tab_mono) (simp add: le)
qed

lemma coord_radius [simp]: "coord (self\<lparr>radius_param := r\<rparr>) k = coord self k"
  by (simp add: coord_def L_input_def)

lemma circular_gui_mono:
  assumes "r1 \<le> r2" "aperture_type self = ''circular''"
  shows "cells_kept (create_aperture (self\<lparr>radius_param := r1\<rparr>)) (create_aperture (self\<lparr>radius_param := r2\<rparr>))"
    and "np_sum (create_aperture (self\<lparr>radius_param := r1\<rparr>)) \<le> np_sum (create_aperture (self\<lparr>radius_param := r2\<rparr>))"
proof -
  let ?d = "\<lambda>r i j. if sqrt ((coord self j)\<^sup>2 + (coord self i)\<^sup>2) \<le> r then 1 else (0::real)"
  let ?n = "N self"
  have d: "?d r1 i j \<le> ?d r2 i j" for i j
    using assms(1) by simp
  have u: "all_cells unit_interval (tabulate2 ?n ?n (?d r2))"
    by (simp add: all_cells_tab unit_interval_def)
  have rot: "interp_linear (tabulate2 ?n ?n (?d r1)) p q \<le> interp_linear (tabulate2 ?n ?n (?d r2)) p q"
    "interp_linear (tabulate2 ?n ?n (?d r2)) p q \<le> 1" for p q
    using interp_linear_tab_mono [of ?n ?n "?d r1" "?d r2" p q] d
      unit_interp_linear [OF u, of p q] by (simp_all add: unit_interval_def)
  have keep: "interp_linear (tabulate2 ?n ?n (?d r1)) p q = 1 \<Longrightarrow>
      interp_linear (tabulate2 ?n ?n (?d r2)) p q = 1" for p q
    using rot [of p q] by simp
  show "cells_kept (create_aperture (self\<lparr>radius_param := r1\<rparr>)) (create_aperture (self\<lparr>radius_param := r2\<rparr>))"
    using assms keep
    by (simp add: create_aperture_circular_tab cells_kept_def Let_def ndimage_rotate_tab list_all2_tab)
  show "np_sum (create_aperture (self\<lparr>radius_param := r1\<rparr>)) \<le> np_sum (create_aperture (self\<lparr>radius_param := r2\<rparr>))"
  proof (cases "rotation_angle self = 0")
    case True
    then show ?thesis
      using assms by (simp add: create_aperture_circular_tab np_sum_tab_mono)
  next
    case False
    then show ?thesis
      using assms(2) rot(1)
      by (simp add: create_aperture_circular_tab Let_def ndimage_rotate_tab np_sum_tab_mono)
  qed
qed

section \<open>An annulus with the inner radius above the outer one\<close>
















section \<open>The disorder aperture and the random source\<close>

lemma disorder_step_no_amount:
  assumes "disorder_amount self \<le> 0"
  shows "disorder_step self (i, j) (tabulate2 (matrix_size self) (matrix_size self) f, g) =
    (tabulate2 (matrix_size self) (matrix_size self)
       (\<lambda>y x. if (real x - (real (matrix_size self div 2)
                        + of_int i * (disorder_spacing self / pixel_size self)))\<^sup>2
                  + (real y - (real (matrix_size self div 2)
                        + of_int j * (disorder_spacing self / pixel_size self)))\<^sup>2
                  \<le> (disorder_circle_diameter self / (2 * pixel_size self))\<^sup>2
               then 1 else f y x), g)"
  using assms by (simp add: disorder_step_def Let_def assign_mask_tab)

lemma fold_disorder_no_amount:
  assumes "disorder_amount self \<le> 0"
  shows "fold (disorder_step self) ps (tabulate2 (matrix_size self) (matrix_size self) f, g) =
    (tabulate2 (matrix_size self) (matrix_size self)
       (\<lambda>y x. if \<exists>(i, j) \<in> set ps.
                    (real x - (real (matrix_size self div 2)
                        + of_int i * (disorder_spacing self / pixel_size self)))\<^sup>2
                  + (real y - (real (matrix_size self div 2)
                        + of_int j * (disorder_spacing self / pixel_size self)))\<^sup>2
                  \<le> (disorder_circle_diameter self / (2 * pixel_size self))\<^sup>2
               then 1 else f y x), g)"
proof (induction ps arbitrary: f)
  case Nil
  then show ?case by simp
next
  case (Cons p ps)
  obtain i j where p: "p = (i, j)" by (cases p)
  show ?case
    unfolding p fold_simps disorder_step_no_amount [OF assms] Cons.IH
    by (auto intro!: tab_cong)
qed

lemma create_disorder_aperture_no_amount:
  "disorder_amount self \<le> 0 \<Longrightarrow> create_disorder_aperture self g = (lattice_mask self, g)"
  by (simp add: create_disorder_aperture_def zeros_tab fold_disorder_no_amount lattice_mask_def)

lemma disorder_step_draws:
  assumes "0 < disorder_amount self"
  shows "snd (disorder_step self ij (ap, g)) = stl (stl g)"
  using assms by (cases ij) (simp add: disorder_step_def Let_def uniform_def)

lemma fold_disorder_draws:
  assumes "0 < disorder_amount self"
  shows "snd (fold (disorder_step self) ps (ap, g)) = ((stl ^^ (2 * length ps)) g)"
proof (induction ps arbitrary: ap g)
  case Nil
  then show ?case by simp
next
  case (Cons p ps)
  obtain ap' g' where s: "disorder_step self p (ap, g) = (ap', g')"
    by (cases "disorder_step self p (ap, g)")
  then have "g' = stl (stl g)"
    using disorder_step_draws [OF assms, of p ap g] by simp
  then show ?case
    by (simp add: s Cons.IH funpow_swap1)
qed

lemma create_disorder_aperture_draws:
  "0 < disorder_amount self \<Longrightarrow> snd (create_disorder_aperture self g) = (stl ^^ 18) g"
proof -
  assume a: "0 < disorder_amount self"
  have "length positions = 9"
    by (simp add: positions_def)
  then show ?thesis
    unfolding create_disorder_aperture_def fold_disorder_draws [OF a] by simp
qed

text \<open>
  C9, as the claim states it, fails for a nonzero amount that is negative: the guard of
  the jitter is \<open>disorder_amount > 0\<close>. With the amount at \<open>-1\<close> the call hands the random
  source back as it got it and returns the periodic lattice.
\<close>

theorem negative_disorder_counterexample:
  "create_disorder_aperture (default_simulator\<lparr>disorder_amount := - 1\<rparr>) halving_source
     = (lattice_mask (default_simulator\<lparr>disorder_amount := - 1\<rparr>), halving_source)
   \<and> halving_source \<noteq> (stl ^^ 18) halving_source"
proof
  show "create_disorder_aperture (default_simulator\<lparr>disorder_amount := - 1\<rparr>) halving_source
     = (lattice_mask (default_simulator\<lparr>disorder_amount := - 1\<rparr>), halving_source)"
    by (rule create_disorder_aperture_no_amount) simp
  have "shd halving_source = 1 / 2"
    by (simp add: halving_source_def)
  moreover have "shd ((stl ^^ 18) halving_source) \<noteq> 1 / 2"
    by (simp add: halving_source_def eval_nat_numeral)
  ultimately show "halving_source \<noteq> (stl ^^ 18) halving_source"
    by metis
qed

text \<open>
  C9, amended. When the disorder amount is 0 (or below), \<open>create_disorder_aperture\<close>
  draws nothing from the random source and returns the periodic 3 by 3 lattice of
  circles, whatever the state of the source: two calls with the same grid, diameter and
  spacing give the same mask. When the amount is above 0, every call draws eighteen
  numbers from the source, two for each lattice point.
\<close>

theorem disorder_draws_iff_positive:
  "(disorder_amount self \<le> 0 \<longrightarrow>
      create_disorder_aperture self g = (lattice_mask self, g))
   \<and> (0 < disorder_amount self \<longrightarrow>
      snd (create_disorder_aperture self g) = (stl ^^ 18) g)"
  by (simp add: create_disorder_aperture_no_amount create_disorder_aperture_draws)

lemma small_simulator_masks:
  "fst (create_disorder_aperture small_simulator (sconst (1 / 2))) = [[0, 0], [0, 1]]"
  "fst (create_disorder_aperture small_simulator (sconst (1 / 3))) = [[1, 0], [0, 0]]"
  by (simp_all add: create_disorder_aperture_def small_simulator_def positions_def
      disorder_step_def Let_def uniform_def zeros_def assign_mask_def amap2_def tabulate2_def
      upt_rec eval_nat_numeral power2_eq_square)

theorem disorder_draws_iff_positive_witness:
  "create_disorder_aperture default_simulator halving_source
     = (lattice_mask default_simulator, halving_source)
   \<and> create_disorder_aperture default_simulator (stl halving_source)
     = (lattice_mask default_simulator, stl halving_source)
   \<and> snd (create_disorder_aperture small_simulator (sconst (1 / 2)))
     = (stl ^^ 18) (sconst (1 / 2))
   \<and> fst (create_disorder_aperture small_simulator (sconst (1 / 2))) = [[0, 0], [0, 1]]
   \<and> fst (create_disorder_aperture small_simulator (sconst (1 / 3))) = [[1, 0], [0, 0]]"
  using disorder_draws_iff_positive [of default_simulator halving_source]
    disorder_draws_iff_positive [of default_simulator "stl halving_source"]
    disorder_draws_iff_positive [of small_simulator "sconst (1 / 2)"]
    small_simulator_masks
  by (simp add: default_simulator_def small_simulator_def)

section \<open>Normalizing the far-field intensity\<close>

lemma has_shape_eq_tab: "has_shape a r c \<Longrightarrow> a = tabulate2 r c (\<lambda>i j. a ! i ! j)"
  by (auto simp add: has_shape_def tabulate2_def list_all_length list_eq_iff_nth_eq)

lemma fft2_tab:
  "fft2 (tabulate2 M K f) =
     tabulate2 M (if M = 0 then 0 else K)
       (\<lambda>k l. \<Sum>m<M. \<Sum>n<(if M = 0 then 0 else K). complex_of_real (f m n) *
          cis (- 2 * pi * (real k * real m / real M + real l * real n / real (if M = 0 then 0 else K))))"
  unfolding fft2_def Let_def shape_of_tab
  by (intro tab_cong sum.cong refl) (auto simp add: nth_tab)

lemma fft2_zeros: "0 < M \<Longrightarrow> fft2 (zeros M K) = tabulate2 M K (\<lambda>k l. 0)"
  by (simp add: zeros_tab fft2_tab)

lemma roll_half_replicate: "roll_half (replicate k x) = replicate k x"
  by (simp add: roll_half_def Let_def replicate_add [symmetric])

lemma tab_const: "tabulate2 r c (\<lambda>i j. v) = replicate r (replicate c v)"
  by (simp add: tabulate2_def map_replicate_trivial)

lemma fftshift_const: "fftshift (replicate r (replicate c v)) = replicate r (replicate c v)"
  by (simp add: fftshift_def roll_half_replicate)

lemma np_max_const: "0 < r \<Longrightarrow> 0 < c \<Longrightarrow> np_max (replicate r (replicate c v)) = Inr v"
proof -
  assume "0 < r" "0 < c"
  then have "set (concat (replicate r (replicate c v))) = {v}"
    by auto
  moreover from this have "concat (replicate r (replicate c v)) \<noteq> []"
    by (metis empty_set insert_not_empty)
  ultimately show ?thesis
    by (simp add: np_max_def)
qed

lemma set_roll_half: "set (roll_half xs) = set xs"
proof -
  have "set (drop k xs) \<union> set (take k xs) = set xs" for k
    by (metis append_take_drop_id set_append sup_commute)
  then show ?thesis
    by (simp add: roll_half_def Let_def)
qed

lemma length_roll_half: "length (roll_half xs) = length xs"
  by (simp add: roll_half_def Let_def)

lemma cells_fftshift: "set (concat (fftshift a)) = set (concat a)"
  by (simp add: fftshift_def set_roll_half)

lemma has_shape_fftshift: "has_shape a r c \<Longrightarrow> has_shape (fftshift a) r c"
  by (simp add: has_shape_def fftshift_def length_roll_half list_all_iff set_roll_half)

lemma has_shape_amap: "has_shape a r c \<Longrightarrow> has_shape (amap f a) r c"
  by (simp add: has_shape_def amap_def list_all_iff)

lemma cells_amap: "set (concat (amap f a)) = f ` set (concat a)"
  by (auto simp add: amap_def)

lemma cells_tab: "set (concat (tabulate2 r c f)) = {f i j | i j. i < r \<and> j < c}"
  by (auto simp add: tabulate2_def) blast

lemma all_cells_iff: "all_cells P a \<longleftrightarrow> (\<forall>v \<in> set (concat a). P v)"
  by (auto simp add: all_cells_def list_all_iff)

lemma nth_tab_cell: "i < r \<Longrightarrow> j < c \<Longrightarrow> f i j \<in> set (concat (tabulate2 r c f))"
  unfolding cells_tab by blast

lemma dc_term:
  assumes "0 < M" "0 < K"
  shows "complex_of_real (\<Sum>m<M. \<Sum>n<K. f m n) \<in> set (concat (fft2 (tabulate2 M K f)))"
proof -
  let ?F = "\<lambda>k l. \<Sum>m<M. \<Sum>n<K. complex_of_real (f m n) *
          cis (- 2 * pi * (real k * real m / real M + real l * real n / real K))"
  have "fft2 (tabulate2 M K f) = tabulate2 M K ?F"
    using assms by (simp add: fft2_tab)
  moreover have "?F 0 0 \<in> set (concat (tabulate2 M K ?F))"
    using assms by (rule nth_tab_cell)
  moreover have "?F 0 0 = complex_of_real (\<Sum>m<M. \<Sum>n<K. f m n)"
    by simp
  ultimately show ?thesis
    by simp
qed

lemma dc_positive:
  fixes M K :: nat
  assumes "\<And>m n. m < M \<Longrightarrow> n < K \<Longrightarrow> 0 \<le> f m n" and "m0 < M" "n0 < K" "0 < f m0 n0"
  shows "0 < (\<Sum>m<M. \<Sum>n<K. (f m n :: real))"
proof -
  have "0 < (\<Sum>n<K. f m0 n)"
    using assms by (intro sum_pos2 [where i = n0]) auto
  moreover have "0 \<le> (\<Sum>n<K. f m n)" if "m < M" for m
    using assms(1) that by (intro sum_nonneg) auto
  ultimately show ?thesis
    using assms(2)
    by (intro sum_pos2 [where i = m0 and I = "{..<M}" and f = "\<lambda>m. \<Sum>n<K. f m n"]) auto
qed

text \<open>
  \<open>calculate_diffraction_pattern\<close> of fraunhofer\_fft\_gui.py divides by the maximum only
  when it is above 0. On a mask with no negative cell and an open one the term of
  frequency zero is the sum of the mask, so the maximum is positive: the field comes out
  finite, between 0 and 1, with a cell equal to 1. On the all-zero mask it is the all-zero
  field.
\<close>

lemma guarded_normalizes:
  assumes shape: "has_shape a M K" and pos: "0 < M" "0 < K"
    and nonneg: "all_cells (\<lambda>v. 0 \<le> v) a"
    and open_cell: "m0 < M" "n0 < K" "0 < a ! m0 ! n0"
  shows "\<exists>r. calculate_diffraction_pattern a = Inr r \<and> has_shape r M K
           \<and> all_cells finite_in_unit r \<and> Fin 1 \<in> set (concat r)"
proof -
  let ?f = "\<lambda>i j. a ! i ! j"
  have a: "a = tabulate2 M K ?f"
    using shape by (rule has_shape_eq_tab)
  define I where "I = amap (\<lambda>c. (cmod c)\<^sup>2) (fftshift (fft2 a))"
  have cells: "set (concat I) = (\<lambda>c. (cmod c)\<^sup>2) ` set (concat (fft2 a))"
    by (simp only: I_def cells_amap cells_fftshift)
  have shape_fft: "has_shape (fft2 a) M K"
    using pos by (subst a) (simp add: fft2_tab has_shape_tab)
  have shape_I: "has_shape I M K"
    unfolding I_def by (intro has_shape_amap has_shape_fftshift shape_fft)
  have "0 \<le> ?f m n" if "m < M" "n < K" for m n
    using all_cells_nth [OF nonneg, of m n] shape that
    by (simp add: has_shape_def list_all_length)
  then have dc: "0 < (\<Sum>m<M. \<Sum>n<K. ?f m n)"
    using open_cell by (intro dc_positive [where ?m0.0 = m0 and ?n0.0 = n0]) auto
  have "complex_of_real (\<Sum>m<M. \<Sum>n<K. ?f m n) \<in> set (concat (fft2 a))"
    using dc_term [OF pos, of ?f] a by simp
  then have "(cmod (complex_of_real (\<Sum>m<M. \<Sum>n<K. ?f m n)))\<^sup>2 \<in> set (concat I)"
    unfolding cells by (rule imageI)
  then have dc_in: "(\<Sum>m<M. \<Sum>n<K. ?f m n)\<^sup>2 \<in> set (concat I)"
    by (simp only: norm_of_real power2_abs)
  then have ne: "concat I \<noteq> []"
    by (metis empty_iff empty_set)
  define mx where "mx = Max (set (concat I))"
  have mx_in: "mx \<in> set (concat I)"
    unfolding mx_def using ne by (intro Max_in) auto
  have mx_ge: "v \<le> mx" if "v \<in> set (concat I)" for v
    unfolding mx_def using that by (intro Max_ge) auto
  have "0 < (\<Sum>m<M. \<Sum>n<K. ?f m n)\<^sup>2"
    using dc by simp
  then have mx_pos: "0 < mx"
    using mx_ge [OF dc_in] by linarith
  have I_nonneg: "0 \<le> v" if "v \<in> set (concat I)" for v
    using that unfolding cells by auto
  let ?r = "amap (\<lambda>v. np_divide v mx) I"
  have "np_max I = Inr mx"
    using ne by (simp only: np_max_def mx_def if_False)
  then have res: "calculate_diffraction_pattern a = Inr ?r"
    using mx_pos by (simp add: calculate_diffraction_pattern_def Let_def I_def [symmetric])
  have "finite_in_unit (np_divide v mx)" if "v \<in> set (concat I)" for v
    using I_nonneg [OF that] mx_ge [OF that] mx_pos
    by (simp add: np_divide_def finite_in_unit_def)
  then have unit: "all_cells finite_in_unit ?r"
    unfolding all_cells_iff cells_amap by blast
  have "np_divide mx mx \<in> set (concat ?r)"
    unfolding cells_amap using mx_in by (rule imageI)
  then have one: "Fin 1 \<in> set (concat ?r)"
    using mx_pos by (simp add: np_divide_def)
  show ?thesis
    using res has_shape_amap [OF shape_I] unit one by blast
qed

lemma guarded_zero_mask:
  assumes "0 < M" "0 < K"
  shows "calculate_diffraction_pattern (zeros M K) = Inr (replicate M (replicate K (Fin 0)))"
  using assms
  by (simp add: calculate_diffraction_pattern_def Let_def fft2_zeros tab_const
      fftshift_const amap_def np_max_const)

text \<open>
  \<open>calculate_diffraction_pattern\<close> of Punto\_2.py divides by the maximum whatever it is: on
  an all-zero mask every cell is \<open>0 / 0\<close>.
\<close>

lemma simulator_zero_mask:
  assumes "0 < M" "0 < K"
  shows "simulator_calculate_diffraction_pattern (zeros M K) = Inr (replicate M (replicate K NaN))"
  using assms
  by (simp add: simulator_calculate_diffraction_pattern_def Let_def fft2_zeros tab_const
      fftshift_const amap_def np_max_const np_divide_def)

text \<open>
  C1. The claim holds of the transform path of fraunhofer\_fft\_gui.py (the two lemmas
  above) and fails on the one of Punto\_2.py, which has no guard: for the all-zero mask
  of the simulator's 256 by 256 grid it returns a field of \<open>nan\<close>, not the all-zero field.
\<close>

theorem simulator_nan_on_zero_mask:
  "simulator_calculate_diffraction_pattern (zeros 256 256)
     = Inr (replicate 256 (replicate 256 NaN))"
  by (rule simulator_zero_mask) simp_all

section \<open>The analytic intensity\<close>

lemma calculate_intensity_eq:
  "calculate_intensity self x y =
     max 0 (p_I_source self * ((p_n self)\<^sup>2 / ((p_lambda self)\<^sup>2 * (p_z self)\<^sup>2))
       * ((rect_field_amplitude self x y)\<^sup>2 + (ring_field_amplitude self x y)\<^sup>2
          + 2 * rect_field_amplitude self x y * ring_field_amplitude self x y
              * cos (2 * pi / p_lambda self * p_D self * y / p_z self)))"
proof -
  have rect: "(v\<^sup>2 * w\<^sup>2) * sx\<^sup>2 * sy\<^sup>2 = ((v * w) * sx * sy)\<^sup>2" for v w sx sy :: real
    by (simp add: power_mult_distrib)
  have ring: "(4 * pi)\<^sup>2 * d\<^sup>2 = ((4 * pi) * d)\<^sup>2" for d :: real
    by (simp add: power_mult_distrib)
  show ?thesis
    unfolding calculate_intensity_def rect_field_amplitude_def ring_field_amplitude_def
      Let_def rect ring
    by (rule refl)
qed

lemma calculate_intensity_nonneg: "0 \<le> calculate_intensity self x y"
  by (simp add: calculate_intensity_def Let_def)

lemma all_cells_amap2: "(\<And>v w. P (f v w)) \<Longrightarrow> all_cells P (amap2 f a b)"
  by (auto simp add: all_cells_def amap2_def list_all_iff)

lemma calculate_intensity_array_nonneg:
  "all_cells (\<lambda>v. 0 \<le> v) (calculate_intensity_array self xs ys)"
  unfolding calculate_intensity_array_def
  by (rule all_cells_amap2) (rule calculate_intensity_nonneg)

text \<open>
  C4. At every point the analytic intensity is the source intensity times
  \<open>n\<^sup>2 / (\<lambda>\<^sup>2 z\<^sup>2)\<close> times the square of the rectangle's field amplitude plus the square of
  the ring's plus the interference term, twice the product of the two amplitudes times
  \<open>cos (k D y / z)\<close> with \<open>k = 2 \<pi> / \<lambda>\<close>, floored at 0; so no value is negative, at a point
  or in an array of them.
\<close>

theorem analytic_intensity_formula:
  "calculate_intensity self x y =
     max 0 (p_I_source self * ((p_n self)\<^sup>2 / ((p_lambda self)\<^sup>2 * (p_z self)\<^sup>2))
       * ((rect_field_amplitude self x y)\<^sup>2 + (ring_field_amplitude self x y)\<^sup>2
          + 2 * rect_field_amplitude self x y * ring_field_amplitude self x y
              * cos (2 * pi / p_lambda self * p_D self * y / p_z self)))
   \<and> 0 \<le> calculate_intensity self x y
   \<and> all_cells (\<lambda>v. 0 \<le> v) (calculate_intensity_array self xs ys)"
  using calculate_intensity_eq [of self x y] calculate_intensity_nonneg [of self x y]
    calculate_intensity_array_nonneg [of self xs ys]
  by (intro conjI)

section \<open>The stabilized helpers\<close>

lemma sin_cubic: "\<bar>sin x - x\<bar> \<le> \<bar>x\<bar> ^ 3 / 6" for x :: real
  using Maclaurin_sin_bound [of x 3]
  by (simp add: sin_coeff_def eval_nat_numeral lessThan_Suc fact_numeral)

lemma sinc_near_one:
  assumes "1 / 10 ^ 10 \<le> \<bar>x\<bar>"
  shows "\<bar>sinc x - 1\<bar> \<le> x\<^sup>2 / 6"
proof -
  have x: "x \<noteq> 0" "0 < \<bar>x\<bar>"
    using assms by auto
  have "sinc x - 1 = (sin x - x) / x"
    using assms x by (simp add: sinc_def field_simps)
  then have "\<bar>sinc x - 1\<bar> = \<bar>sin x - x\<bar> / \<bar>x\<bar>"
    by simp
  also have "\<dots> \<le> (\<bar>x\<bar> ^ 3 / 6) / \<bar>x\<bar>"
    using sin_cubic [of x] x by (intro divide_right_mono) auto
  also have "\<dots> = x\<^sup>2 / 6"
    using x by (simp add: power3_eq_cube power2_eq_square)
  finally show ?thesis .
qed

lemma j1_over_x:
  fixes x :: real
  assumes "\<bar>x\<bar> \<le> 1" and "x \<noteq> 0"
  shows "1 / 2 - x\<^sup>2 / 16 \<le> j1 x / x" and "j1 x / x \<le> 1 / 2"
proof -
  define y where "y = (x / 2)\<^sup>2"
  define c where "c m = y ^ m / (2 * fact m * fact (Suc m))" for m :: nat
  have y: "0 \<le> y" "y \<le> 1 / 4"
  proof -
    show "0 \<le> y" by (simp add: y_def)
    have "x\<^sup>2 \<le> 1"
      using assms(1) by (simp add: abs_square_le_1)
    then show "y \<le> 1 / 4"
      by (simp add: y_def power_divide)
  qed
  have c_pos: "0 \<le> c m" for m
    using y by (simp add: c_def)
  have c_mono: "c (Suc m) \<le> c m" for m
    unfolding c_def
  proof (rule frac_le)
    show "0 \<le> y ^ m" using y by simp
    show "y ^ Suc m \<le> y ^ m"
      using y by (intro power_decreasing) auto
    show "0 < 2 * fact m * (fact (Suc m) :: real)" by simp
    have "(fact m :: real) \<le> fact (Suc m)" "(fact (Suc m) :: real) \<le> fact (Suc (Suc m))"
      by (intro fact_mono; simp)+
    then show "2 * fact m * (fact (Suc m) :: real) \<le> 2 * fact (Suc m) * fact (Suc (Suc m))"
      by (intro mult_mono) auto
  qed
  have c_le: "c m \<le> y ^ m" for m
  proof -
    have "1 * 1 * 1 \<le> 2 * fact m * (fact (Suc m) :: real)"
      by (intro mult_mono fact_ge_1) auto
    then have "1 \<le> 2 * fact m * (fact (Suc m) :: real)"
      by simp
    then have "y ^ m / (2 * fact m * fact (Suc m)) \<le> y ^ m / 1"
      using y by (intro divide_left_mono) auto
    then show ?thesis
      by (simp add: c_def)
  qed
  have y_lim: "(\<lambda>m. y ^ m) \<longlonglongrightarrow> 0"
    using y by (intro LIMSEQ_realpow_zero) auto
  have c_lim: "c \<longlonglongrightarrow> 0"
  proof (rule tendsto_sandwich)
    show "\<forall>\<^sub>F m in sequentially. 0 \<le> c m"
      by (simp add: c_pos)
    show "\<forall>\<^sub>F m in sequentially. c m \<le> y ^ m"
      by (simp add: c_le)
    show "(\<lambda>m. 0 :: real) \<longlonglongrightarrow> 0"
      by simp
    show "(\<lambda>m. y ^ m) \<longlonglongrightarrow> 0"
      by (rule y_lim)
  qed
  note leibniz = summable_Leibniz' [of c, OF c_lim c_pos c_mono]
  have tm: "(- 1) ^ m / (fact m * fact (Suc m)) * (x / 2) ^ (2 * m + 1)
      = x * ((- 1) ^ m * c m)" for m
  proof -
    have "(x / 2) ^ (2 * m) = y ^ m"
      unfolding y_def by (rule power_mult)
    then have e: "(x / 2) ^ (2 * m + 1) = (x / 2) * y ^ m"
      by simp
    show ?thesis
      unfolding e c_def by (simp add: field_simps)
  qed
  have "j1 x = x * (\<Sum>m. (- 1) ^ m * c m)"
    unfolding j1_def tm using leibniz(1) by (rule suminf_mult)
  then have q: "j1 x / x = (\<Sum>m. (- 1) ^ m * c m)"
    using assms(2) by simp
  have "(\<Sum>i<2 * 1. (- 1) ^ i * c i) \<le> j1 x / x"
    unfolding q by (rule leibniz(2))
  then show "1 / 2 - x\<^sup>2 / 16 \<le> j1 x / x"
    by (simp add: c_def y_def lessThan_Suc eval_nat_numeral power_divide)
  have "j1 x / x \<le> (\<Sum>i<2 * 0 + 1. (- 1) ^ i * c i)"
    unfolding q by (rule leibniz(4))
  then show "j1 x / x \<le> 1 / 2"
    by (simp add: c_def)
qed

lemma bessel_j1_normalized_near_half:
  assumes "1 / 10 ^ 10 \<le> \<bar>x\<bar>" and "\<bar>x\<bar> \<le> 1"
  shows "\<bar>bessel_j1_normalized x - 1 / 2\<bar> \<le> x\<^sup>2 / 16"
proof -
  have "x \<noteq> 0"
    using assms(1) by auto
  from j1_over_x [OF assms(2) this] show ?thesis
    using assms(1) by (simp add: bessel_j1_normalized_def)
qed

text \<open>
  C6. Below the threshold \<open>1 / 10 ^ 10\<close> the stabilized \<open>sinc\<close> is exactly 1 and the
  stabilized \<open>J1(x)/x\<close> exactly 1/2. From the threshold on (up to 1) the formula values
  stay within \<open>x\<^sup>2 / 6\<close> of 1 and within \<open>x\<^sup>2 / 16\<close> of 1/2: at the threshold the two
  helpers jump by less than \<open>1 / 10 ^ 20\<close>.
\<close>

theorem stabilized_helpers_limits:
  "(\<bar>x\<bar> < 1 / 10 ^ 10 \<longrightarrow> sinc x = 1 \<and> bessel_j1_normalized x = 1 / 2)
   \<and> (1 / 10 ^ 10 \<le> \<bar>x\<bar> \<and> \<bar>x\<bar> \<le> 1 \<longrightarrow>
        \<bar>sinc x - 1\<bar> \<le> x\<^sup>2 / 6 \<and> \<bar>bessel_j1_normalized x - 1 / 2\<bar> \<le> x\<^sup>2 / 16)"
  using sinc_near_one [of x] bessel_j1_normalized_near_half [of x]
  by (simp add: sinc_def bessel_j1_normalized_def)

theorem stabilized_helpers_limits_witness:
  "sinc 0 = 1 \<and> bessel_j1_normalized 0 = 1 / 2
   \<and> \<bar>sinc (1 / 10 ^ 10) - 1\<bar> \<le> 1 / 10 ^ 20
   \<and> \<bar>bessel_j1_normalized (1 / 10 ^ 10) - 1 / 2\<bar> \<le> 1 / 10 ^ 20
   \<and> \<bar>sinc (- (1 / 10 ^ 10)) - 1\<bar> \<le> 1 / 10 ^ 20
   \<and> \<bar>bessel_j1_normalized (- (1 / 10 ^ 10)) - 1 / 2\<bar> \<le> 1 / 10 ^ 20"
proof -
  have "\<bar>0 :: real\<bar> < 1 / 10 ^ 10"
    by simp
  with stabilized_helpers_limits [of 0] have zero: "sinc 0 = 1 \<and> bessel_j1_normalized 0 = 1 / 2"
    by blast
  have p: "1 / 10 ^ 10 \<le> \<bar>1 / 10 ^ 10 :: real\<bar> \<and> \<bar>1 / 10 ^ 10 :: real\<bar> \<le> 1"
    by simp
  with stabilized_helpers_limits [of "1 / 10 ^ 10"]
  have "\<bar>sinc (1 / 10 ^ 10) - 1\<bar> \<le> (1 / 10 ^ 10)\<^sup>2 / 6
    \<and> \<bar>bessel_j1_normalized (1 / 10 ^ 10) - 1 / 2\<bar> \<le> (1 / 10 ^ 10)\<^sup>2 / 16"
    by blast
  moreover have "((1 :: real) / 10 ^ 10)\<^sup>2 / 6 \<le> 1 / 10 ^ 20"
    "((1 :: real) / 10 ^ 10)\<^sup>2 / 16 \<le> 1 / 10 ^ 20"
    by (simp_all add: power2_eq_square)
  ultimately have pos: "\<bar>sinc (1 / 10 ^ 10) - 1\<bar> \<le> 1 / 10 ^ 20
    \<and> \<bar>bessel_j1_normalized (1 / 10 ^ 10) - 1 / 2\<bar> \<le> 1 / 10 ^ 20"
    by linarith
  have m: "1 / 10 ^ 10 \<le> \<bar>- (1 / 10 ^ 10) :: real\<bar> \<and> \<bar>- (1 / 10 ^ 10) :: real\<bar> \<le> 1"
    by simp
  with stabilized_helpers_limits [of "- (1 / 10 ^ 10)"]
  have "\<bar>sinc (- (1 / 10 ^ 10)) - 1\<bar> \<le> (- (1 / 10 ^ 10))\<^sup>2 / 6
    \<and> \<bar>bessel_j1_normalized (- (1 / 10 ^ 10)) - 1 / 2\<bar> \<le> (- (1 / 10 ^ 10))\<^sup>2 / 16"
    by blast
  moreover have "(- ((1 :: real) / 10 ^ 10))\<^sup>2 / 6 \<le> 1 / 10 ^ 20"
    "(- ((1 :: real) / 10 ^ 10))\<^sup>2 / 16 \<le> 1 / 10 ^ 20"
    by (simp_all add: power2_eq_square)
  ultimately have neg: "\<bar>sinc (- (1 / 10 ^ 10)) - 1\<bar> \<le> 1 / 10 ^ 20
    \<and> \<bar>bessel_j1_normalized (- (1 / 10 ^ 10)) - 1 / 2\<bar> \<le> 1 / 10 ^ 20"
    by linarith
  from zero pos neg show ?thesis
    by blast
qed

section \<open>The Fresnel intensity\<close>

text \<open>
  Of the Fresnel cosine integral the proofs need its value 0 at 0, its oddness at 1 and a
  lower bound at 1, from the alternating series: \<open>C 1 \<ge> 1 - \<pi>\<^sup>2 / 40\<close>.
\<close>

lemma fresnel_C_zero: "fresnel_C 0 = 0"
  by (simp add: fresnel_C_def)

lemma fresnel_C_series_at_one:
  shows "summable (\<lambda>k. (- 1) ^ k * ((pi / 2)\<^sup>2 ^ k / (fact (2 * k) * real (4 * k + 1))))"
    and "3 / 5 \<le> (\<Sum>k. (- 1) ^ k * ((pi / 2)\<^sup>2 ^ k / (fact (2 * k) * real (4 * k + 1))))"
proof -
  define q :: real where "q = (pi / 2)\<^sup>2"
  define c where "c k = q ^ k / (fact (2 * k) * real (4 * k + 1))" for k :: nat
  have q: "0 \<le> q" "q \<le> 4"
  proof -
    show "0 \<le> q" by (simp add: q_def)
    have "0 \<le> pi / 2" "pi / 2 \<le> 2"
      using pi_less_4 pi_gt_zero by simp_all
    then have "(pi / 2)\<^sup>2 \<le> 2\<^sup>2"
      by (intro power_mono)
    then show "q \<le> 4"
      by (simp add: q_def)
  qed
  have c_pos: "0 \<le> c k" for k
    using q by (simp add: c_def)
  have half: "c (Suc k) \<le> c k / 2" for k
  proof -
    define P where "P = real ((2 * k + 2) * (2 * k + 1) * (4 * k + 5))"
    define R where "R = real (4 * k + 1)"
    define A where "A = q ^ k / fact (2 * k)"
    have "0 < (2 * k + 2) * (2 * k + 1) * (4 * k + 5)"
      by simp
    then have "0 < P"
      unfolding P_def by (simp only: of_nat_0_less_iff)
    moreover have "0 < R" "0 \<le> A"
      using q by (simp_all add: R_def A_def)
    ultimately have pos: "0 < P" "0 < R" "0 \<le> A"
      by simp_all
    have n: "8 * (4 * k + 1) \<le> (2 * k + 2) * (2 * k + 1) * (4 * k + 5)"
      by (simp add: algebra_simps)
    have "2 * R * q \<le> 2 * R * 4"
      using q pos by (intro mult_left_mono) auto
    also have "\<dots> = real (8 * (4 * k + 1))"
      by (simp add: R_def)
    also have "\<dots> \<le> P"
      unfolding P_def using n by (simp only: of_nat_le_iff)
    finally have r: "2 * R * q \<le> P" .
    have "q / P \<le> 1 / (2 * R)"
      using r pos by (simp add: field_simps)
    then have "A * (q / P) \<le> A * (1 / (2 * R))"
      using pos(3) by (rule mult_left_mono)
    moreover have "(fact (2 * Suc k) :: real) = real ((2 * k + 2) * (2 * k + 1)) * fact (2 * k)"
      by (simp add: algebra_simps)
    then have "c (Suc k) = A * (q / P)"
      unfolding c_def P_def A_def by (simp add: field_simps)
    moreover have "c k / 2 = A * (1 / (2 * R))"
      unfolding c_def A_def R_def by (simp add: field_simps)
    ultimately show ?thesis
      by simp
  qed
  have c_mono: "c (Suc k) \<le> c k" for k
    using half [of k] c_pos [of k] by linarith
  have c_le: "c k \<le> (1 / 2) ^ k" for k
  proof (induction k)
    case 0
    show ?case by (simp add: c_def)
  next
    case (Suc k)
    then show ?case
      using half [of k] by simp
  qed
  have c_lim: "c \<longlonglongrightarrow> 0"
  proof (rule tendsto_sandwich)
    show "\<forall>\<^sub>F k in sequentially. 0 \<le> c k"
      by (simp add: c_pos)
    show "\<forall>\<^sub>F k in sequentially. c k \<le> (1 / 2) ^ k"
      by (simp add: c_le)
    show "(\<lambda>k. 0 :: real) \<longlonglongrightarrow> 0"
      by simp
    show "(\<lambda>k. (1 / 2 :: real) ^ k) \<longlonglongrightarrow> 0"
      by (intro LIMSEQ_realpow_zero) auto
  qed
  note leibniz = summable_Leibniz' [of c, OF c_lim c_pos c_mono]
  show "summable (\<lambda>k. (- 1) ^ k * ((pi / 2)\<^sup>2 ^ k / (fact (2 * k) * real (4 * k + 1))))"
    using leibniz(1) by (simp add: c_def q_def)
  have "(\<Sum>i<2 * 1. (- 1) ^ i * c i) \<le> (\<Sum>k. (- 1) ^ k * c k)"
    by (rule leibniz(2))
  moreover have "(\<Sum>i<2 * 1. (- 1) ^ i * c i) = 1 - q / 10"
    by (simp add: c_def lessThan_Suc eval_nat_numeral)
  ultimately have "3 / 5 \<le> (\<Sum>k. (- 1) ^ k * c k)"
    using q by simp
  then show "3 / 5 \<le> (\<Sum>k. (- 1) ^ k * ((pi / 2)\<^sup>2 ^ k / (fact (2 * k) * real (4 * k + 1))))"
    by (simp add: c_def q_def)
qed

lemma fresnel_C_one: "3 / 5 \<le> fresnel_C 1"
proof -
  have "(- 1) ^ k * (pi / 2) ^ (2 * k) * 1 ^ (4 * k + 1) / (fact (2 * k) * real (4 * k + 1))
      = (- 1) ^ k * ((pi / 2)\<^sup>2 ^ k / (fact (2 * k) * real (4 * k + 1)))" for k
    by (simp add: power_mult)
  then show ?thesis
    unfolding fresnel_C_def using fresnel_C_series_at_one(2) by simp
qed

lemma fresnel_C_minus_one: "fresnel_C (- 1) = - fresnel_C 1"
proof -
  have m: "(- 1) ^ k * (pi / 2) ^ (2 * k) * (- 1) ^ (4 * k + 1) / (fact (2 * k) * real (4 * k + 1))
      = - ((- 1) ^ k * ((pi / 2)\<^sup>2 ^ k / (fact (2 * k) * real (4 * k + 1))))" for k
    by (simp add: power_mult)
  have p: "(- 1) ^ k * (pi / 2) ^ (2 * k) * 1 ^ (4 * k + 1) / (fact (2 * k) * real (4 * k + 1))
      = (- 1) ^ k * ((pi / 2)\<^sup>2 ^ k / (fact (2 * k) * real (4 * k + 1)))" for k
    by (simp add: power_mult)
  show ?thesis
    unfolding fresnel_C_def m p using fresnel_C_series_at_one(1) by (rule suminf_minus)
qed

lemma calcular_patron_fresnel_amended:
  "calcular_patron_fresnel u N' = fresnel_intensity_amended u N'"
  by (simp add: calcular_patron_fresnel_def fresnel_intensity_amended_def fresnel_def Let_def
      intensidad_central_def)

lemma sqrt_quarter: "sqrt (1 / 4) = 1 / 2"
  by (simp add: real_sqrt_divide)

lemma fresnel_at_quarter:
  "calcular_patron_fresnel (1 / 4) (1 / 2) \<noteq> 0"
  "fresnel_intensity_as_stated (1 / 4) (1 / 2) = 0"
proof -
  let ?num = "(fresnel_C 0 - fresnel_C (- 1))\<^sup>2 + (fresnel_S 0 - fresnel_S (- 1))\<^sup>2"
  have c: "0 < (fresnel_C 1)\<^sup>2"
    using fresnel_C_one by simp
  have s: "0 \<le> (fresnel_S 0 - fresnel_S (- 1))\<^sup>2"
    by simp
  have num: "0 < ?num"
    unfolding fresnel_C_zero fresnel_C_minus_one using add_pos_nonneg [OF c s] by simp
  have code: "calcular_patron_fresnel (1 / 4) (1 / 2) =
      (if intensidad_central (1 / 2) < 1 / 10 ^ 12 then ?num
       else ?num / intensidad_central (1 / 2))"
    by (simp add: calcular_patron_fresnel_amended fresnel_intensity_amended_def Let_def
        sqrt_quarter)
  have "0 < calcular_patron_fresnel (1 / 4) (1 / 2)"
  proof (cases "intensidad_central (1 / 2) < 1 / 10 ^ 12")
    case True
    then have "calcular_patron_fresnel (1 / 4) (1 / 2) = ?num"
      by (simp only: code if_True)
    then show ?thesis
      using num by (simp only:)
  next
    case False
    then have "(0 :: real) < 1 / 10 ^ 12" "1 / 10 ^ 12 \<le> intensidad_central (1 / 2)"
      by simp_all
    then have "0 < intensidad_central (1 / 2)"
      by (rule less_le_trans)
    then have "0 < ?num / intensidad_central (1 / 2)"
      using num by (rule divide_pos_pos [rotated])
    moreover from False have "calcular_patron_fresnel (1 / 4) (1 / 2)
        = ?num / intensidad_central (1 / 2)"
      by (simp only: code if_False)
    ultimately show ?thesis
      by (simp only:)
  qed
  then show "calcular_patron_fresnel (1 / 4) (1 / 2) \<noteq> 0"
    by auto
  show "fresnel_intensity_as_stated (1 / 4) (1 / 2) = 0"
    by (simp add: fresnel_intensity_as_stated_def Let_def sqrt_quarter)
qed

text \<open>
  C2, as the claim states it, fails. Read sign by sign, \<open>\<plusminus> sqrt (N / 2) \<minusplus> u sqrt (2 / N)\<close>
  gives the second argument \<open>- sqrt (N / 2) + u sqrt (2 / N)\<close>, the negative of the first;
  the code computes \<open>- sqrt (N / 2) - u sqrt (2 / N)\<close>. At \<open>N = 1/2\<close> and \<open>u = 1/4\<close> the first
  argument is 0: the intensity as stated is 0, the code's is not (its arguments are 0 and
  \<open>-1\<close>).
\<close>

theorem fresnel_as_stated_counterexample:
  "calcular_patron_fresnel (1 / 4) (1 / 2) \<noteq> fresnel_intensity_as_stated (1 / 4) (1 / 2)"
  using fresnel_at_quarter by simp

text \<open>
  C2, amended. For every coordinate \<open>u\<close> and every Fresnel number \<open>N\<close>, the Fresnel
  intensity is \<open>sinc(u)\<^sup>2\<close> if \<open>N < 1 / 10 ^ 6\<close>; otherwise it is
  \<open>(C1 - C2)\<^sup>2 + (S1 - S2)\<^sup>2\<close> for the Fresnel integrals at the arguments
  \<open>sqrt (N / 2) - u sqrt (2 / N)\<close> and \<open>- sqrt (N / 2) - u sqrt (2 / N)\<close>, divided by the same
  expression at the arguments \<open>sqrt (N / 2)\<close> and \<open>- sqrt (N / 2)\<close>, unless that denominator
  is below \<open>1 / 10 ^ 12\<close>, when the intensity is returned undivided. On an array of
  coordinates it is that, coordinate by coordinate.
\<close>

theorem fresnel_intensity_refines_amended:
  "calcular_patron_fresnel u N' = fresnel_intensity_amended u N'
   \<and> calcular_patron_fresnel_array us N' = map (\<lambda>ui. fresnel_intensity_amended ui N') us"
  by (simp add: calcular_patron_fresnel_amended calcular_patron_fresnel_array_def)

lemma fresnel_centre:
  assumes "1 / 10 ^ 6 \<le> N'" and "1 / 10 ^ 12 \<le> intensidad_central N'"
  shows "calcular_patron_fresnel 0 N' = 1"
proof -
  have "0 < intensidad_central N'"
    using assms(2) by (rule less_le_trans [rotated]) simp
  then show ?thesis
    using assms
    by (simp add: calcular_patron_fresnel_amended fresnel_intensity_amended_def Let_def
        intensidad_central_def [symmetric] not_less [symmetric])
qed

lemma intensidad_central_two: "1 / 10 ^ 12 \<le> intensidad_central 2"
proof -
  have "3 / 5 \<le> fresnel_C 1"
    by (rule fresnel_C_one)
  then have "(3 / 5)\<^sup>2 \<le> (fresnel_C 1)\<^sup>2"
    by (intro power_mono) auto
  then have "1 / 10 ^ 12 \<le> (fresnel_C 1 - fresnel_C (- 1))\<^sup>2"
    unfolding fresnel_C_minus_one by (simp add: power2_eq_square)
  moreover have "0 \<le> (fresnel_S 1 - fresnel_S (- 1))\<^sup>2"
    by simp
  moreover have "intensidad_central 2
      = (fresnel_C 1 - fresnel_C (- 1))\<^sup>2 + (fresnel_S 1 - fresnel_S (- 1))\<^sup>2"
    by (simp add: intensidad_central_def)
  ultimately show ?thesis
    by linarith
qed

text \<open>
  C5. For a Fresnel number at or above \<open>1 / 10 ^ 6\<close> whose normalizing denominator is not
  below \<open>1 / 10 ^ 12\<close>, the intensity at \<open>u = 0\<close> is exactly 1: there the numerator is the
  denominator.
\<close>

theorem fresnel_central_value_one:
  assumes "1 / 10 ^ 6 \<le> N'" and "1 / 10 ^ 12 \<le> intensidad_central N'"
  shows "calcular_patron_fresnel 0 N' = 1"
  using assms by (rule fresnel_centre)

theorem fresnel_central_value_one_witness:
  "1 / 10 ^ 12 \<le> intensidad_central 2 \<and> calcular_patron_fresnel 0 2 = 1"
proof -
  have h: "1 / 10 ^ 6 \<le> (2 :: real)"
    by simp
  show ?thesis
    using fresnel_central_value_one [OF h intensidad_central_two] intensidad_central_two
    by simp
qed

section \<open>Square and slit outside the grid\<close>

lemma square_and_slit_binary:
  "has_shape (create_square_aperture (rows, cols) side cx cy) rows cols
   \<and> all_cells (\<lambda>v. v = 0 \<or> v = 1) (create_square_aperture (rows, cols) side cx cy)
   \<and> has_shape (create_single_slit_aperture (rows, cols) w h cx cy) rows cols
   \<and> all_cells (\<lambda>v. v = 0 \<or> v = 1) (create_single_slit_aperture (rows, cols) w h cx cy)"
  by (simp add: create_square_aperture_def create_single_slit_aperture_def Let_def zeros_tab
      assign_slice_tab has_shape_tab all_cells_tab)

text \<open>
  C10. The square and the single-slit builders clip the start of each slice at 0 and its
  end at the axis length, and nothing else: an end below 0 is left negative, and a slice
  reads a negative bound from the end of the axis. So a shape that lies wholly to the
  left of (or above) the grid does not give the all-zero mask. On a grid of 3 rows and 6
  columns, a square of side 2 centred at \<open>x = -5, y = 1\<close> covers the columns from \<open>-6\<close> to
  \<open>-4\<close>, none of them in the grid; the code assigns \<open>aperture[0:2, 0:-4]\<close> and sets columns
  0 and 1 of rows 0 and 1. The single slit of width 2 and height 2 does the same. The
  rest of the claim holds: for every input the builders return a mask of the grid's shape
  with the values 0 and 1 only (\<open>square_and_slit_binary\<close>).
\<close>

theorem square_and_slit_left_of_grid:
  "create_square_aperture (3, 6) 2 (- 5) 1 =
     [[1, 1, 0, 0, 0, 0], [1, 1, 0, 0, 0, 0], [0, 0, 0, 0, 0, 0]]
   \<and> create_single_slit_aperture (3, 6) 2 2 (- 5) 1 =
     [[1, 1, 0, 0, 0, 0], [1, 1, 0, 0, 0, 0], [0, 0, 0, 0, 0, 0]]"
  by (simp add: create_square_aperture_def create_single_slit_aperture_def zeros_def
      assign_slice_def py_int_def in_slice_def slice_bound_def enumerate_eq_zip upt_rec
      eval_nat_numeral)

section \<open>Masks stay between 0 and 1\<close>

text \<open>
  C7. Whatever the aperture type, the dimensions and the rotation angle, the mask that
  \<open>create_aperture\<close> returns has the shape of the grid and every value in the closed
  interval from 0 to 1: before the rotation every cell is 0 or 1, and the rotation
  resamples by linear interpolation, which stays between the values it interpolates and
  the fill value 0. The double slit of diffraction\_calculator.py adds two slit masks and
  clips the sum to the same interval. No positivity of the dimensions is needed.
\<close>

theorem rasterizer_mask_in_unit_interval:
  "has_shape (create_aperture self) (N self) (N self)
   \<and> all_cells unit_interval (create_aperture self)
   \<and> has_shape (create_double_slit_aperture (rows, cols) w h sep cx cy) rows cols
   \<and> all_cells unit_interval (create_double_slit_aperture (rows, cols) w h sep cx cy)"
  by (simp add: create_aperture_shape create_aperture_unit create_double_slit_aperture_shape
      create_double_slit_aperture_unit)

section \<open>A larger circle opens more cells\<close>

text \<open>
  C8. For two radii \<open>0 \<le> r1 \<le> r2\<close>, a grid and a centre, every cell that
  \<open>create_circular_aperture\<close> sets to 1 at radius \<open>r1\<close> is set to 1 at radius \<open>r2\<close>, and the
  sum of the mask at \<open>r1\<close> is at most the sum at \<open>r2\<close>; the same holds for the circular
  aperture of \<open>create_aperture\<close>, at any rotation angle. The grid need not contain the
  circle.
\<close>

theorem circular_mask_monotone_in_radius:
  assumes "0 \<le> r1" and "r1 \<le> r2" and "aperture_type self = ''circular''"
  shows "cells_kept (create_circular_aperture shape r1 cx cy)
           (create_circular_aperture shape r2 cx cy)
    \<and> np_sum (create_circular_aperture shape r1 cx cy)
          \<le> np_sum (create_circular_aperture shape r2 cx cy)
    \<and> cells_kept (create_aperture (self\<lparr>radius_param := r1\<rparr>))
          (create_aperture (self\<lparr>radius_param := r2\<rparr>))
    \<and> np_sum (create_aperture (self\<lparr>radius_param := r1\<rparr>))
          \<le> np_sum (create_aperture (self\<lparr>radius_param := r2\<rparr>))"
  using assms by (simp add: circular_pixel_mono circular_gui_mono)

lemma circular_sums_example:
  "np_sum (create_circular_aperture (5, 5) 1 2 2) = 5"
  "np_sum (create_circular_aperture (5, 5) 2 2 2) = 13"
  by (simp_all add: create_circular_aperture_tab np_sum_tab upt_rec eval_nat_numeral)

theorem circular_mask_monotone_in_radius_witness:
  "np_sum (create_circular_aperture (5, 5) 1 2 2) = 5
   \<and> np_sum (create_circular_aperture (5, 5) 2 2 2) = 13
   \<and> cells_kept (create_circular_aperture (5, 5) 1 2 2) (create_circular_aperture (5, 5) 2 2 2)
   \<and> np_sum (create_circular_aperture (5, 5) 1 2 2)
         \<le> np_sum (create_circular_aperture (5, 5) 2 2 2)
   \<and> cells_kept
         (create_aperture (\<lparr>N = 4, pixel_size_input = 1, aperture_type = ''circular'',
            width_param = 1, height_param = 1, radius_param = 0, r_outer_param = 2,
            r_inner_param = 1, separation_param = 1, rotation_angle = 30\<rparr>
            \<lparr>radius_param := 1\<rparr>))
         (create_aperture (\<lparr>N = 4, pixel_size_input = 1, aperture_type = ''circular'',
            width_param = 1, height_param = 1, radius_param = 0, r_outer_param = 2,
            r_inner_param = 1, separation_param = 1, rotation_angle = 30\<rparr>
            \<lparr>radius_param := 2\<rparr>))"
proof -
  have h: "(0::real) \<le> 1" "(1::real) \<le> 2"
    "aperture_type \<lparr>N = 4, pixel_size_input = 1, aperture_type = ''circular'',
       width_param = 1, height_param = 1, radius_param = 0, r_outer_param = 2,
       r_inner_param = 1, separation_param = 1, rotation_angle = 30\<rparr> = ''circular''"
    by simp_all
  show ?thesis
    using circular_mask_monotone_in_radius [OF h, of "(5, 5)" 2 2] circular_sums_example
    by simp
qed

end
